theory Spec2Isabelle
  imports Complex_Main "HOL-Library.Word"
begin

section \<open>Python values used by \<^verbatim>\<open>main.py\<close>\<close>

text \<open>
  A Python \<^verbatim>\<open>str\<close> is a sequence of Unicode code points and \<^verbatim>\<open>len\<close> counts code
  points, so a string is modelled as a list of code points (natural numbers); an uploaded
  file is a list of bytes. String literals of the source are written through \<open>ascii\<close>.
\<close>

type_synonym pystr = "nat list"
type_synonym byte = "8 word"

definition ascii :: "string \<Rightarrow> pystr" where
  "ascii s = map of_char s"

text \<open>
  The characters for which \<^verbatim>\<open>str.isspace\<close> holds; \<^verbatim>\<open>str.split()\<close> and
  \<^verbatim>\<open>str.strip()\<close> without arguments both use this set.
\<close>

definition is_space :: "nat \<Rightarrow> bool" where
  "is_space c =
     ((9 \<le> c \<and> c \<le> 13) \<or> (28 \<le> c \<and> c \<le> 32) \<or> c = 133 \<or> c = 160 \<or> c = 5760 \<or>
      (8192 \<le> c \<and> c \<le> 8202) \<or> c = 8232 \<or> c = 8233 \<or> c = 8239 \<or> c = 8287 \<or>
      c = 12288)"

text \<open>The line boundaries of \<^verbatim>\<open>str.splitlines()\<close>.\<close>

definition is_linebreak :: "nat \<Rightarrow> bool" where
  "is_linebreak c =
     ((10 \<le> c \<and> c \<le> 13) \<or> (28 \<le> c \<and> c \<le> 30) \<or> c = 133 \<or> c = 8232 \<or> c = 8233)"

text \<open>\<^verbatim>\<open>s.strip()\<close>: leading and trailing whitespace removed.\<close>

definition py_strip :: "pystr \<Rightarrow> pystr" where
  "py_strip s = rev (dropWhile is_space (rev (dropWhile is_space s)))"

text \<open>
  \<^verbatim>\<open>s.split()\<close>: the maximal runs of non-whitespace characters, in order; \<open>cur\<close> is the
  token being read.
\<close>

fun split_ws :: "pystr \<Rightarrow> pystr \<Rightarrow> pystr list" where
  "split_ws cur [] = (if cur = [] then [] else [cur])"
| "split_ws cur (c # cs) =
     (if is_space c then (if cur = [] then split_ws [] cs else cur # split_ws [] cs)
      else split_ws (cur @ [c]) cs)"

definition py_split :: "pystr \<Rightarrow> pystr list" where
  "py_split s = split_ws [] s"

text \<open>
  \<^verbatim>\<open>s.split(sep)\<close> for a one-character separator: every separator ends a field, so the
  result is never empty.
\<close>

fun split_fields :: "nat \<Rightarrow> pystr \<Rightarrow> pystr \<Rightarrow> pystr list" where
  "split_fields sep cur [] = [cur]"
| "split_fields sep cur (c # cs) =
     (if c = sep then cur # split_fields sep [] cs else split_fields sep (cur @ [c]) cs)"

definition py_split_sep :: "nat \<Rightarrow> pystr \<Rightarrow> pystr list" where
  "py_split_sep sep s = split_fields sep [] s"

text \<open>\<^verbatim>\<open>sep.join(xs)\<close>.\<close>

fun py_join :: "pystr \<Rightarrow> pystr list \<Rightarrow> pystr" where
  "py_join sep [] = []"
| "py_join sep [x] = x"
| "py_join sep (x # y # ys) = x @ sep @ py_join sep (y # ys)"

text \<open>
  \<^verbatim>\<open>s.splitlines()\<close>: a line ends at a line boundary, \<^verbatim>\<open>\r\n\<close> counts as one
  boundary, and no empty line is added after a final boundary.
\<close>

fun split_lines :: "pystr \<Rightarrow> pystr \<Rightarrow> pystr list" where
  "split_lines cur [] = (if cur = [] then [] else [cur])"
| "split_lines cur (c # cs) =
     (if c = 13 then
        (case cs of
           [] \<Rightarrow> [cur]
         | d # ds \<Rightarrow> if d = 10 then cur # split_lines [] ds else cur # split_lines [] cs)
      else if is_linebreak c then cur # split_lines [] cs
      else split_lines (cur @ [c]) cs)"

definition py_splitlines :: "pystr \<Rightarrow> pystr list" where
  "py_splitlines s = split_lines [] s"

text \<open>
  \<^verbatim>\<open>content.decode("utf-8")\<close> with the default strict error handler: the well-formed
  byte sequences of the Unicode standard (no overlong forms, no surrogates, nothing above
  U+10FFFF) decode to their code points; \<open>None\<close> stands for \<^verbatim>\<open>UnicodeDecodeError\<close>.
\<close>

definition is_cont :: "byte \<Rightarrow> bool" where
  "is_cont b = (128 \<le> unat b \<and> unat b \<le> 191)"

fun utf8_decode :: "byte list \<Rightarrow> pystr option" where
  "utf8_decode [] = Some []"
| "utf8_decode (b0 # bs) =
     (if unat b0 < 128 then map_option ((#) (unat b0)) (utf8_decode bs)
      else if 194 \<le> unat b0 \<and> unat b0 \<le> 223 then
        (case bs of
           b1 # r \<Rightarrow>
             if is_cont b1
             then map_option ((#) ((unat b0 - 192) * 64 + (unat b1 - 128))) (utf8_decode r)
             else None
         | _ \<Rightarrow> None)
      else if 224 \<le> unat b0 \<and> unat b0 \<le> 239 then
        (case bs of
           b1 # b2 # r \<Rightarrow>
             if (if unat b0 = 224 then 160 else 128) \<le> unat b1 \<and>
                unat b1 \<le> (if unat b0 = 237 then 159 else 191) \<and> is_cont b2
             then map_option
                    ((#) ((unat b0 - 224) * 4096 + (unat b1 - 128) * 64 + (unat b2 - 128)))
                    (utf8_decode r)
             else None
         | _ \<Rightarrow> None)
      else if 240 \<le> unat b0 \<and> unat b0 \<le> 244 then
        (case bs of
           b1 # b2 # b3 # r \<Rightarrow>
             if (if unat b0 = 240 then 144 else 128) \<le> unat b1 \<and>
                unat b1 \<le> (if unat b0 = 244 then 143 else 191) \<and> is_cont b2 \<and> is_cont b3
             then map_option
                    ((#) ((unat b0 - 240) * 262144 + (unat b1 - 128) * 4096 +
                          (unat b2 - 128) * 64 + (unat b3 - 128)))
                    (utf8_decode r)
             else None
         | _ \<Rightarrow> None)
      else None)"

section \<open>The analysis engine\<close>

text \<open>
  The dictionary returned by \<^verbatim>\<open>perform_analysis\<close> always has the same five keys; it is a
  record. \<^verbatim>\<open>score\<close> and \<^verbatim>\<open>confidence\<close> are Python floats; the code only negates and
  copies them, which is exact, so they are modelled as reals.
\<close>

record analysis_result =
  text' :: pystr
  score :: real
  label :: pystr
  confidence :: real
  keywords' :: pystr

text \<open>
  The sentiment pipeline \<^verbatim>\<open>analyzer\<close> is loaded from a library: it is a parameter, a
  function from the text it is given to the \<^verbatim>\<open>label\<close> and \<^verbatim>\<open>score\<close> of the first
  entry of its answer.
\<close>

type_synonym analyzer = "pystr \<Rightarrow> pystr \<times> real"

text \<open>
  Calling the pipeline is the one effect of the engine. It is made explicit by a log of the
  texts handed to the pipeline, oldest first, threaded through every function that may
  call it.
\<close>

type_synonym calls = "pystr list"

text \<open>
  \<^verbatim>\<open>
  def extract_keywords(text: str) -> str:
      words = [w.strip() for w in text.split() if len(w) > 3]
      return ",".join(words[:3]) if words else "General"
  \<close>
\<close>

definition extract_keywords :: "pystr \<Rightarrow> pystr" where
  "extract_keywords txt =
     (let words = map py_strip (filter (\<lambda>w. length w > 3) (py_split txt))
      in if words \<noteq> [] then py_join (ascii '','') (take 3 words) else ascii ''General'')"

text \<open>
  \<^verbatim>\<open>
  def perform_analysis(text: str):
      safe_text = text[:500]
      result = analyzer(safe_text)[0]
      label = result['label']
      confidence = result['score']
      score = confidence if label == "POSITIVE" else -confidence
      return {"text": text, "score": score, "label": label,
              "confidence": confidence, "keywords": extract_keywords(text)}
  \<close>
\<close>

definition perform_analysis :: "analyzer \<Rightarrow> pystr \<Rightarrow> calls \<Rightarrow> analysis_result \<times> calls" where
  "perform_analysis analyzer txt clog =
     (let safe_text = take 500 txt;
          result = analyzer safe_text;
          lbl = fst result;
          conf = snd result;
          sc = (if lbl = ascii ''POSITIVE'' then conf else - conf)
      in (\<lparr>text' = txt, score = sc, label = lbl, confidence = conf,
           keywords' = extract_keywords txt\<rparr>,
          clog @ [safe_text]))"

text \<open>The comprehension \<^verbatim>\<open>[perform_analysis(x) for x in xs]\<close>, left to right.\<close>

fun analyze_each :: "analyzer \<Rightarrow> pystr list \<Rightarrow> calls \<Rightarrow> analysis_result list \<times> calls" where
  "analyze_each analyzer [] clog = ([], clog)"
| "analyze_each analyzer (x # xs) clog =
     (case perform_analysis analyzer x clog of
        (r, clog') \<Rightarrow>
          (case analyze_each analyzer xs clog' of (rs, clog'') \<Rightarrow> (r # rs, clog'')))"

section \<open>The endpoints\<close>

text \<open>
  An endpoint returns a dictionary with string keys, serialised as a JSON object: an
  association list from keys to values, in the order the source writes them.
\<close>

datatype jvalue =
    JNone
  | JInt nat
  | JFloat real
  | JStr pystr
  | JResults "analysis_result list"
  | JDict "(string \<times> jvalue) list"

type_synonym response = "(string \<times> jvalue) list"

text \<open>
  \<^verbatim>\<open>
  async def analyze_list(req: ListRequest):
      results = [perform_analysis(item) for item in req.items]
      return {"total_scanned": len(results), "results": results}
  \<close>
\<close>

definition analyze_list :: "analyzer \<Rightarrow> pystr list \<Rightarrow> calls \<Rightarrow> response \<times> calls" where
  "analyze_list analyzer items clog =
     (case analyze_each analyzer items clog of
        (results, clog') \<Rightarrow>
          ([(''total_scanned'', JInt (length results)), (''results'', JResults results)],
           clog'))"

definition MAX_ROWS :: nat where
  "MAX_ROWS = 500"

text \<open>
  The loop of \<^verbatim>\<open>analyze_file\<close> over the decoded lines, with \<^verbatim>\<open>results\<close> as its state:
  \<^verbatim>\<open>
  for line in decoded_content:
      if len(results) >= MAX_ROWS:
          break
      if line.strip():
          text = line.split(",")[0] if "," in line else line
          if len(text.strip()) > 5:
              results.append(perform_analysis(text))
  \<close>
  \<^verbatim>\<open>line.split(",")\<close> is never empty, so its element 0 is its head.
\<close>

fun file_loop ::
  "analyzer \<Rightarrow> pystr list \<Rightarrow> analysis_result list \<Rightarrow> calls \<Rightarrow> analysis_result list \<times> calls"
where
  "file_loop analyzer [] results clog = (results, clog)"
| "file_loop analyzer (line # rest) results clog =
     (if length results \<ge> MAX_ROWS then (results, clog)
      else if py_strip line \<noteq> [] then
        (let txt = (if 44 \<in> set line then hd (py_split_sep 44 line) else line)
         in if length (py_strip txt) > 5
            then (case perform_analysis analyzer txt clog of
                    (r, clog') \<Rightarrow> file_loop analyzer rest (results @ [r]) clog')
            else file_loop analyzer rest results clog)
      else file_loop analyzer rest results clog)"

text \<open>
  \<^verbatim>\<open>
  async def analyze_file(file):
      start = time.time()
      content = await file.read()
      try:
          decoded_content = content.decode("utf-8").splitlines()
      except UnicodeDecodeError:
          return {"error": "Invalid file encoding. Use UTF-8."}
      results = []
      MAX_ROWS = 500
      (the loop above)
      return {"total_scanned": len(results), "results": results,
              "meta": {"processing_time": round(time.time() - start, 4),
                       "warning": f"Capped at {MAX_ROWS} rows to prevent timeout."
                                  if len(decoded_content) > MAX_ROWS else None}}
  \<close>
  The clock is outside the model: \<open>elapsed\<close> is the rounded processing time.
\<close>

definition analyze_file :: "analyzer \<Rightarrow> real \<Rightarrow> byte list \<Rightarrow> calls \<Rightarrow> response \<times> calls" where
  "analyze_file analyzer elapsed content clog =
     (case utf8_decode content of
        None \<Rightarrow> ([(''error'', JStr (ascii ''Invalid file encoding. Use UTF-8.''))], clog)
      | Some decoded \<Rightarrow>
          (let decoded_content = py_splitlines decoded in
           case file_loop analyzer decoded_content [] clog of
             (results, clog') \<Rightarrow>
               ([(''total_scanned'', JInt (length results)),
                 (''results'', JResults results),
                 (''meta'', JDict
                    [(''processing_time'', JFloat elapsed),
                     (''warning'',
                        if length decoded_content > MAX_ROWS
                        then JStr (ascii ''Capped at 500 rows to prevent timeout.'')
                        else JNone)])],
                clog')))"

text \<open>
  \<^verbatim>\<open>scrape_url\<close> fetches the page and parses it with library code. What the rest of the
  function sees of that is either an exception, with its message, or the texts \<^verbatim>\<open>p.text\<close>
  of the elements \<^verbatim>\<open>soup.find_all('p')\<close>, in document order.
\<close>

datatype fetched = Failed pystr | Page "pystr list"

text \<open>
  \<^verbatim>\<open>
  try:
      (fetch and parse)
      paragraphs = [p.text.strip() for p in soup.find_all('p') if len(p.text.strip()) > 20]
      paragraphs = paragraphs[:50]
      if not paragraphs:
          return {"error": "No readable paragraph text found on this URL.", "results": []}
      results = [perform_analysis(p) for p in paragraphs]
      return {"total_scanned": len(results), "results": results}
  except Exception as e:
      return {"error": f"Scraping failed: {str(e)}", "results": []}
  \<close>
\<close>

definition scrape_url :: "analyzer \<Rightarrow> fetched \<Rightarrow> calls \<Rightarrow> response \<times> calls" where
  "scrape_url analyzer page clog =
     (case page of
        Failed msg \<Rightarrow>
          ([(''error'', JStr (ascii ''Scraping failed: '' @ msg)), (''results'', JResults [])],
           clog)
      | Page ptexts \<Rightarrow>
          (let paragraphs = map py_strip (filter (\<lambda>p. length (py_strip p) > 20) ptexts);
               paragraphs = take 50 paragraphs
           in if paragraphs = [] then
                ([(''error'', JStr (ascii ''No readable paragraph text found on this URL.'')),
                  (''results'', JResults [])],
                 clog)
              else
                (case analyze_each analyzer paragraphs clog of
                   (results, clog') \<Rightarrow>
                     ([(''total_scanned'', JInt (length results)),
                       (''results'', JResults results)],
                      clog'))))"

section \<open>Notions used to state the properties\<close>

text \<open>
  The analysis of one text: the record \<^verbatim>\<open>perform_analysis\<close> returns for it. It does not
  depend on the pipeline calls made before.
\<close>

definition analysis_of :: "analyzer \<Rightarrow> pystr \<Rightarrow> analysis_result" where
  "analysis_of analyzer txt = fst (perform_analysis analyzer txt [])"

text \<open>The value under the key \<^verbatim>\<open>results\<close> of a response, empty when the key is absent.\<close>

definition results_of :: "response \<Rightarrow> analysis_result list" where
  "results_of resp = (case map_of resp ''results'' of Some (JResults rs) \<Rightarrow> rs | _ \<Rightarrow> [])"

text \<open>A pipeline that gives every text the same label and confidence, for concrete runs.\<close>

definition const_analyzer :: "pystr \<Rightarrow> real \<Rightarrow> analyzer" where
  "const_analyzer lbl conf txt = (lbl, conf)"

text \<open>
  The keyword fallback as the specification words it: split on whitespace, keep the tokens
  longer than 3 characters, join the first 3 with a comma, \<^verbatim>\<open>General\<close> when none is left.
\<close>

definition spec_keyword_fallback :: "pystr \<Rightarrow> pystr" where
  "spec_keyword_fallback txt =
     (let tokens = filter (\<lambda>w. 3 < length w) (py_split txt)
      in if tokens = [] then ascii ''General'' else py_join (ascii '','') (take 3 tokens))"

text \<open>
  The candidates of a file as the specification words them: of every line that is not blank
  after trimming, the part before the first comma if the line has a comma and the whole
  line otherwise, kept if its trimmed length exceeds 5.
\<close>

definition spec_candidate :: "pystr \<Rightarrow> pystr" where
  "spec_candidate line = (if 44 \<in> set line then takeWhile (\<lambda>c. c \<noteq> 44) line else line)"

definition spec_candidates :: "pystr list \<Rightarrow> pystr list" where
  "spec_candidates lines =
     filter (\<lambda>t. 5 < length (py_strip t))
       (map spec_candidate (filter (\<lambda>l. py_strip l \<noteq> []) lines))"

text \<open>
  The qualifying paragraphs of a page as the specification words them: the paragraph texts
  whose trimmed length exceeds 20, trimmed, in document order.
\<close>

definition spec_paragraphs :: "pystr list \<Rightarrow> pystr list" where
  "spec_paragraphs ptexts = map py_strip (filter (\<lambda>p. 20 < length (py_strip p)) ptexts)"

section \<open>Facts about the string functions and the loops\<close>

lemma split_ws_tokens:
  "\<forall>c\<in>set cur. \<not> is_space c \<Longrightarrow> \<forall>w\<in>set (split_ws cur s). \<forall>c\<in>set w. \<not> is_space c"
proof (induction s arbitrary: cur)
  case Nil
  then show ?case by simp
next
  case (Cons c cs)
  show ?case
  proof (cases "is_space c")
    case True
    have "\<forall>w\<in>set (split_ws [] cs). \<forall>c\<in>set w. \<not> is_space c"
      by (rule Cons.IH) simp
    with True Cons.prems show ?thesis by simp
  next
    case False
    with Cons.prems have "\<forall>x\<in>set (cur @ [c]). \<not> is_space x" by simp
    then have "\<forall>w\<in>set (split_ws (cur @ [c]) cs). \<forall>c\<in>set w. \<not> is_space c"
      by (rule Cons.IH)
    with False show ?thesis by simp
  qed
qed

lemma py_strip_no_space: "\<forall>c\<in>set w. \<not> is_space c \<Longrightarrow> py_strip w = w"
proof -
  assume a: "\<forall>c\<in>set w. \<not> is_space c"
  then have "dropWhile is_space w = w"
    by (cases w) auto
  moreover from a have "dropWhile is_space (rev w) = rev w"
    by (cases "rev w") (auto simp: dropWhile_eq_self_iff)
  ultimately show ?thesis by (simp add: py_strip_def)
qed

lemma py_strip_token: "w \<in> set (py_split s) \<Longrightarrow> py_strip w = w"
  using split_ws_tokens [of "[]" s] by (simp add: py_split_def py_strip_no_space)

lemma hd_split_fields: "hd (split_fields sep cur s) = cur @ takeWhile (\<lambda>c. c \<noteq> sep) s"
  by (induction s arbitrary: cur) auto

lemma hd_py_split_sep: "hd (py_split_sep sep s) = takeWhile (\<lambda>c. c \<noteq> sep) s"
  by (simp add: py_split_sep_def hd_split_fields)

lemma split_fields_not_Nil: "split_fields sep cur s \<noteq> []"
  by (induction s arbitrary: cur) auto

lemma perform_analysis_eq:
  "perform_analysis analyzer txt clog = (analysis_of analyzer txt, clog @ [take 500 txt])"
  by (simp add: perform_analysis_def analysis_of_def Let_def)

lemma analyze_each_eq:
  "analyze_each analyzer xs clog = (map (analysis_of analyzer) xs, clog @ map (take 500) xs)"
  by (induction xs arbitrary: clog) (simp_all add: perform_analysis_eq)

lemma file_loop_Cons:
  "file_loop analyzer (line # rest) results clog =
     (if MAX_ROWS \<le> length results then (results, clog)
      else if py_strip line \<noteq> [] \<and> 5 < length (py_strip (spec_candidate line))
      then file_loop analyzer rest (results @ [analysis_of analyzer (spec_candidate line)])
             (clog @ [take 500 (spec_candidate line)])
      else file_loop analyzer rest results clog)"
  by (simp add: Let_def hd_py_split_sep spec_candidate_def perform_analysis_eq)

lemma spec_candidates_Cons:
  "spec_candidates (line # rest) =
     (if py_strip line \<noteq> [] \<and> 5 < length (py_strip (spec_candidate line))
      then spec_candidate line # spec_candidates rest else spec_candidates rest)"
  by (simp add: spec_candidates_def)

lemma file_loop_eq:
  "length results \<le> MAX_ROWS \<Longrightarrow>
   file_loop analyzer lines results clog =
     (results @ map (analysis_of analyzer) (take (MAX_ROWS - length results) (spec_candidates lines)),
      clog @ map (take 500) (take (MAX_ROWS - length results) (spec_candidates lines)))"
proof (induction lines arbitrary: results clog)
  case Nil
  then show ?case by (simp add: spec_candidates_def)
next
  case (Cons line rest)
  let ?q = "py_strip line \<noteq> [] \<and> 5 < length (py_strip (spec_candidate line))"
  show ?case
  proof (cases "MAX_ROWS \<le> length results")
    case True
    with Cons.prems have "MAX_ROWS - length results = 0" by simp
    with True show ?thesis by (simp add: file_loop_Cons del: file_loop.simps)
  next
    case False
    then obtain k where k: "MAX_ROWS - length results = Suc k"
      by (cases "MAX_ROWS - length results") auto
    then have k': "MAX_ROWS - length (results @ [r]) = k" for r by simp
    from False have le: "length (results @ [r]) \<le> MAX_ROWS" for r by simp
    show ?thesis
    proof (cases ?q)
      case True
      then have q: "?q = True" by blast
      have "file_loop analyzer (line # rest) results clog =
            file_loop analyzer rest (results @ [analysis_of analyzer (spec_candidate line)])
             (clog @ [take 500 (spec_candidate line)])"
        using False by (simp only: file_loop_Cons q if_True if_False)
      also have "\<dots> = ((results @ [analysis_of analyzer (spec_candidate line)]) @
           map (analysis_of analyzer) (take k (spec_candidates rest)),
         (clog @ [take 500 (spec_candidate line)]) @ map (take 500) (take k (spec_candidates rest)))"
        using Cons.IH [OF le] by (simp only: k')
      finally show ?thesis
        by (simp only: spec_candidates_Cons q if_True k take_Suc_Cons list.map append.simps
              append_assoc)
    next
      case F2: False
      then have q: "?q = False" by blast
      have "file_loop analyzer (line # rest) results clog = file_loop analyzer rest results clog"
        using False by (simp only: file_loop_Cons q if_True if_False)
      also have "\<dots> = (results @ map (analysis_of analyzer)
            (take (MAX_ROWS - length results) (spec_candidates rest)),
          clog @ map (take 500) (take (MAX_ROWS - length results) (spec_candidates rest)))"
        by (rule Cons.IH [OF Cons.prems])
      finally show ?thesis
        by (simp only: spec_candidates_Cons q if_False)
    qed
  qed
qed

lemma analysis_of_fields:
  "text' (analysis_of analyzer txt) = txt"
  "label (analysis_of analyzer txt) = fst (analyzer (take 500 txt))"
  "confidence (analysis_of analyzer txt) = snd (analyzer (take 500 txt))"
  "score (analysis_of analyzer txt) =
     (if label (analysis_of analyzer txt) = ascii ''POSITIVE''
      then confidence (analysis_of analyzer txt) else - confidence (analysis_of analyzer txt))"
  "keywords' (analysis_of analyzer txt) = extract_keywords txt"
  by (simp_all add: analysis_of_def perform_analysis_def Let_def)

lemma analyze_list_eq:
  "analyze_list analyzer items clog =
     ([(''total_scanned'', JInt (length items)),
       (''results'', JResults (map (analysis_of analyzer) items))],
      clog @ map (take 500) items)"
  by (simp add: analyze_list_def analyze_each_eq)

lemma analyze_file_eq:
  "utf8_decode content = Some decoded \<Longrightarrow>
   analyze_file analyzer elapsed content clog =
     ([(''total_scanned'', JInt (length (take MAX_ROWS (spec_candidates (py_splitlines decoded))))),
       (''results'', JResults
          (map (analysis_of analyzer) (take MAX_ROWS (spec_candidates (py_splitlines decoded))))),
       (''meta'', JDict
          [(''processing_time'', JFloat elapsed),
           (''warning'',
              if length (py_splitlines decoded) > MAX_ROWS
              then JStr (ascii ''Capped at 500 rows to prevent timeout.'')
              else JNone)])],
      clog @ map (take 500) (take MAX_ROWS (spec_candidates (py_splitlines decoded))))"
  using file_loop_eq [of "[]" analyzer "py_splitlines decoded" clog]
  by (simp add: analyze_file_def Let_def del: file_loop.simps)

lemma scrape_url_eq:
  "spec_paragraphs ptexts \<noteq> [] \<Longrightarrow>
   scrape_url analyzer (Page ptexts) clog =
     ([(''total_scanned'', JInt (length (take 50 (spec_paragraphs ptexts)))),
       (''results'', JResults (map (analysis_of analyzer) (take 50 (spec_paragraphs ptexts))))],
      clog @ map (take 500) (take 50 (spec_paragraphs ptexts)))"
  by (simp add: scrape_url_def spec_paragraphs_def Let_def analyze_each_eq)

lemma scrape_url_empty:
  "spec_paragraphs ptexts = [] \<Longrightarrow>
   scrape_url analyzer (Page ptexts) clog =
     ([(''error'', JStr (ascii ''No readable paragraph text found on this URL.'')),
       (''results'', JResults [])], clog)"
  by (simp add: scrape_url_def spec_paragraphs_def Let_def)

lemma results_of_analyze_list:
  "results_of (fst (analyze_list analyzer items clog)) = map (analysis_of analyzer) items"
  by (simp add: analyze_list_eq results_of_def)

lemma results_of_analyze_file:
  "results_of (fst (analyze_file analyzer elapsed content clog)) =
     (case utf8_decode content of
        None \<Rightarrow> []
      | Some decoded \<Rightarrow>
          map (analysis_of analyzer) (take MAX_ROWS (spec_candidates (py_splitlines decoded))))"
proof (cases "utf8_decode content")
  case None
  then show ?thesis by (simp add: analyze_file_def results_of_def)
next
  case (Some decoded)
  then show ?thesis by (simp add: analyze_file_eq results_of_def)
qed

lemma results_of_scrape_url:
  "results_of (fst (scrape_url analyzer page clog)) =
     (case page of
        Failed msg \<Rightarrow> []
      | Page ptexts \<Rightarrow> map (analysis_of analyzer) (take 50 (spec_paragraphs ptexts)))"
proof (cases page)
  case (Failed msg)
  then show ?thesis by (simp add: scrape_url_def results_of_def)
next
  case (Page ptexts)
  then show ?thesis
    by (cases "spec_paragraphs ptexts = []")
       (simp_all add: scrape_url_eq scrape_url_empty results_of_def)
qed

lemma endpoint_result_is_analysis:
  assumes "r \<in> set (results_of (fst (analyze_list analyzer items clog))) \<or>
           r \<in> set (results_of (fst (analyze_file analyzer elapsed content clog))) \<or>
           r \<in> set (results_of (fst (scrape_url analyzer page clog)))"
  shows "\<exists>txt. r = analysis_of analyzer txt"
  using assms
  by (auto simp: results_of_analyze_list results_of_analyze_file results_of_scrape_url
           split: option.splits fetched.splits)

lemma utf8_decode_newlines: "utf8_decode (replicate n 0x0A) = Some (replicate n 10)"
  by (induction n) simp_all

lemma split_lines_newlines: "split_lines [] (replicate n 10) = replicate n []"
  by (induction n) (simp_all add: is_linebreak_def)

lemma spec_candidates_blank: "spec_candidates (replicate n []) = []"
  by (simp add: spec_candidates_def py_strip_def)

lemma spec_candidates_length: "length (spec_candidates lines) \<le> length lines"
  unfolding spec_candidates_def
  by (rule order_trans [OF length_filter_le]) (simp add: length_filter_le)

lemma analyze_file_warning_iff:
  "utf8_decode content = Some decoded \<Longrightarrow>
   map_of (fst (analyze_file analyzer elapsed content clog)) ''meta'' =
     Some (JDict [(''processing_time'', JFloat elapsed),
                  (''warning'',
                     if 500 < length (py_splitlines decoded)
                     then JStr (ascii ''Capped at 500 rows to prevent timeout.'')
                     else JNone)])"
  by (simp add: analyze_file_eq MAX_ROWS_def)

lemma split_ws_leading_spaces: "split_ws [] (replicate n 32 @ s) = split_ws [] s"
  by (induction n) (simp_all add: is_space_def)

lemma split_ws_spaces: "split_ws [] (replicate n 32) = []"
  by (induction n) (simp_all add: is_space_def)

section \<open>The keyword fallback\<close>

lemma extract_keywords_refines: "extract_keywords txt = spec_keyword_fallback txt"
proof -
  have "map py_strip (filter (\<lambda>w. 3 < length w) (py_split txt)) =
        filter (\<lambda>w. 3 < length w) (py_split txt)"
    by (rule map_idI) (auto dest: py_strip_token)
  then show ?thesis
    by (simp add: extract_keywords_def spec_keyword_fallback_def Let_def)
qed

text \<open>
  C5: for every input string, \<^verbatim>\<open>extract_keywords\<close> splits the text on whitespace, keeps
  the tokens of more than 3 characters in their order, joins the first 3 of them with a
  comma, and returns \<^verbatim>\<open>General\<close> when no token is kept. On
  \<^verbatim>\<open>The quick brown fox jumps\<close> it gives \<^verbatim>\<open>quick,brown,jumps\<close>, on \<^verbatim>\<open>a b c\<close> it
  gives \<^verbatim>\<open>General\<close>.
\<close>

theorem extract_keywords_fallback:
  "extract_keywords txt = spec_keyword_fallback txt \<and>
   extract_keywords (ascii ''The quick brown fox jumps'') = ascii ''quick,brown,jumps'' \<and>
   extract_keywords (ascii ''a b c'') = ascii ''General''"
proof -
  have "extract_keywords (ascii ''The quick brown fox jumps'') = ascii ''quick,brown,jumps''"
    by (simp add: extract_keywords_def ascii_def py_split_def is_space_def py_strip_def)
  moreover have "extract_keywords (ascii ''a b c'') = ascii ''General''"
    by (simp add: extract_keywords_def ascii_def py_split_def is_space_def py_strip_def)
  ultimately show ?thesis by (simp add: extract_keywords_refines)
qed

section \<open>The analysis of one text\<close>

text \<open>
  C6: for every text, \<^verbatim>\<open>perform_analysis\<close> hands the pipeline the first 500 characters of
  the text and nothing more, while the \<^verbatim>\<open>text\<close> field of the record is the whole text
  and its \<^verbatim>\<open>keywords\<close> field is the keyword fallback of the whole text.
\<close>

theorem perform_analysis_truncates:
  "snd (perform_analysis analyzer txt clog) = clog @ [take 500 txt] \<and>
   length (take 500 txt) \<le> 500 \<and>
   text' (fst (perform_analysis analyzer txt clog)) = txt \<and>
   keywords' (fst (perform_analysis analyzer txt clog)) = extract_keywords txt \<and>
   label (fst (perform_analysis analyzer txt clog)) = fst (analyzer (take 500 txt)) \<and>
   confidence (fst (perform_analysis analyzer txt clog)) = snd (analyzer (take 500 txt))"
  by (simp add: perform_analysis_def Let_def)

text \<open>
  The whole text and its first 500 characters can have different keyword fallbacks: after
  500 spaces, a word is lost by the truncation and kept by the record.
\<close>

lemma keywords_of_whole_text_example:
  "extract_keywords (replicate 500 32 @ ascii ''word'') = ascii ''word'' \<and>
   extract_keywords (take 500 (replicate 500 32 @ ascii ''word'')) = ascii ''General'' \<and>
   keywords' (fst (perform_analysis analyzer (replicate 500 32 @ ascii ''word'') clog)) =
     ascii ''word''"
proof -
  have a: "py_split (replicate 500 32 @ ascii ''word'') = [ascii ''word'']"
    unfolding py_split_def split_ws_leading_spaces
    by (simp add: ascii_def is_space_def)
  have s: "py_strip (ascii ''word'') = ascii ''word''"
    by (simp add: py_strip_def ascii_def is_space_def)
  have n: "length (ascii ''word'') = 4"
    by (simp add: ascii_def)
  have k: "extract_keywords (replicate 500 32 @ ascii ''word'') = ascii ''word''"
    by (simp add: extract_keywords_def a s n)
  have g: "extract_keywords (take 500 (replicate 500 32 @ ascii ''word'')) = ascii ''General''"
    by (simp add: extract_keywords_def py_split_def split_ws_spaces)
  from k g show ?thesis
    by (simp add: perform_analysis_def Let_def)
qed

text \<open>
  C1, as the code has it: every record in the \<^verbatim>\<open>results\<close> of any of the three endpoints
  has \<^verbatim>\<open>score\<close> equal to \<^verbatim>\<open>confidence\<close> when the label is \<^verbatim>\<open>POSITIVE\<close> and to
  \<^verbatim>\<open>-confidence\<close> otherwise. Hence the absolute value of the score is the confidence
  when the confidence is not negative, the score lies in \<open>[-1, 1]\<close> when the confidence
  lies in \<open>[0, 1]\<close>, and the sign of the score is \<open>+1\<close> exactly for the label
  \<^verbatim>\<open>POSITIVE\<close> and \<open>-1\<close> exactly for any other label when the confidence is positive.
\<close>

theorem score_follows_label:
  assumes "r \<in> set (results_of (fst (analyze_list analyzer items clog))) \<or>
           r \<in> set (results_of (fst (analyze_file analyzer elapsed content clog))) \<or>
           r \<in> set (results_of (fst (scrape_url analyzer page clog)))"
  shows "score r = (if label r = ascii ''POSITIVE'' then confidence r else - confidence r) \<and>
         (0 \<le> confidence r \<longrightarrow> \<bar>score r\<bar> = confidence r) \<and>
         (0 < confidence r \<longrightarrow>
            (sgn (score r) = 1 \<longleftrightarrow> label r = ascii ''POSITIVE'') \<and>
            (sgn (score r) = - 1 \<longleftrightarrow> label r \<noteq> ascii ''POSITIVE'')) \<and>
         (0 \<le> confidence r \<and> confidence r \<le> 1 \<longrightarrow> - 1 \<le> score r \<and> score r \<le> 1)"
proof -
  from endpoint_result_is_analysis [OF assms]
  obtain t where r: "r = analysis_of analyzer t" ..
  have s: "score r = (if label r = ascii ''POSITIVE'' then confidence r else - confidence r)"
    unfolding r by (rule analysis_of_fields(4))
  show ?thesis
  proof (cases "label r = ascii ''POSITIVE''")
    case True
    with s have "score r = confidence r" by simp
    with True show ?thesis by (simp add: sgn_real_def)
  next
    case False
    with s have "score r = - confidence r" by simp
    with False show ?thesis by (simp add: sgn_real_def)
  qed
qed

theorem score_follows_label_witness:
  "analysis_of (const_analyzer (ascii ''NEGATIVE'') (3/4)) (ascii ''a dull day'') \<in>
     set (results_of (fst (analyze_list (const_analyzer (ascii ''NEGATIVE'') (3/4))
            [ascii ''a dull day''] []))) \<and>
   label (analysis_of (const_analyzer (ascii ''NEGATIVE'') (3/4)) (ascii ''a dull day'')) =
     ascii ''NEGATIVE'' \<and>
   confidence (analysis_of (const_analyzer (ascii ''NEGATIVE'') (3/4)) (ascii ''a dull day'')) = 3/4 \<and>
   score (analysis_of (const_analyzer (ascii ''NEGATIVE'') (3/4)) (ascii ''a dull day'')) = - (3/4) \<and>
   sgn (score (analysis_of (const_analyzer (ascii ''NEGATIVE'') (3/4)) (ascii ''a dull day''))) = - 1 \<and>
   \<bar>score (analysis_of (const_analyzer (ascii ''NEGATIVE'') (3/4)) (ascii ''a dull day''))\<bar> = 3/4"
proof -
  let ?an = "const_analyzer (ascii ''NEGATIVE'') (3/4)"
  let ?r = "analysis_of ?an (ascii ''a dull day'')"
  have m: "?r \<in> set (results_of (fst (analyze_list ?an [ascii ''a dull day''] [])))"
    by (simp add: results_of_analyze_list)
  have l: "label ?r = ascii ''NEGATIVE''"
    by (simp add: analysis_of_fields const_analyzer_def)
  have c: "confidence ?r = 3/4"
    by (simp add: analysis_of_fields const_analyzer_def)
  have ne: "ascii ''NEGATIVE'' \<noteq> ascii ''POSITIVE''"
    by (simp add: ascii_def)
  note w = score_follows_label [where r = ?r and analyzer = ?an and items = "[ascii ''a dull day'']"
      and clog = "[]", OF disjI1, OF m]
  from w l c ne have s: "score ?r = - (3/4)" by simp
  from m l c s show ?thesis by (simp add: sgn_real_def)
qed

text \<open>
  At confidence 0 the score is 0 whatever the label: its sign is not \<open>+1\<close> although the
  label is \<^verbatim>\<open>POSITIVE\<close>.
\<close>

theorem sign_at_zero_confidence_counterexample:
  "analysis_of (const_analyzer (ascii ''POSITIVE'') 0) (ascii ''fine'') \<in>
     set (results_of (fst (analyze_list (const_analyzer (ascii ''POSITIVE'') 0) [ascii ''fine''] []))) \<and>
   label (analysis_of (const_analyzer (ascii ''POSITIVE'') 0) (ascii ''fine'')) = ascii ''POSITIVE'' \<and>
   confidence (analysis_of (const_analyzer (ascii ''POSITIVE'') 0) (ascii ''fine'')) = 0 \<and>
   score (analysis_of (const_analyzer (ascii ''POSITIVE'') 0) (ascii ''fine'')) = 0 \<and>
   sgn (score (analysis_of (const_analyzer (ascii ''POSITIVE'') 0) (ascii ''fine''))) \<noteq> 1"
  by (simp add: results_of_analyze_list analysis_of_fields const_analyzer_def)

section \<open>The list endpoint\<close>

text \<open>
  C2: for every non-empty list of \<open>n\<close> strings, \<^verbatim>\<open>analyze_list\<close> returns exactly \<open>n\<close>
  records, the \<open>i\<close>-th one being the analysis of the \<open>i\<close>-th item, and
  \<^verbatim>\<open>total_scanned\<close> is \<open>n\<close>.
\<close>

theorem analyze_list_each_item:
  assumes "items \<noteq> []" and "length items = n"
  shows "\<exists>results.
           fst (analyze_list analyzer items clog) =
             [(''total_scanned'', JInt n), (''results'', JResults results)] \<and>
           length results = n \<and>
           results = map (analysis_of analyzer) items \<and>
           (\<forall>i<n. results ! i = analysis_of analyzer (items ! i))"
  using assms by (simp add: analyze_list_def analyze_each_eq)

theorem analyze_list_each_item_witness:
  "[ascii ''good day'', ascii ''bad day''] \<noteq> [] \<and>
   length [ascii ''good day'', ascii ''bad day''] = 2 \<and>
   fst (analyze_list (const_analyzer (ascii ''POSITIVE'') (9/10))
          [ascii ''good day'', ascii ''bad day''] []) =
     [(''total_scanned'', JInt 2),
      (''results'', JResults
         [analysis_of (const_analyzer (ascii ''POSITIVE'') (9/10)) (ascii ''good day''),
          analysis_of (const_analyzer (ascii ''POSITIVE'') (9/10)) (ascii ''bad day'')])]"
  using analyze_list_each_item
    [of "[ascii ''good day'', ascii ''bad day'']" 2 "const_analyzer (ascii ''POSITIVE'') (9/10)" "[]"]
  by auto

text \<open>
  C10: for the empty list, \<^verbatim>\<open>analyze_list\<close> succeeds with \<^verbatim>\<open>total_scanned\<close> 0 and no
  results, calls the pipeline on nothing, and its response has no \<^verbatim>\<open>error\<close> key.
\<close>

theorem analyze_list_empty:
  "analyze_list analyzer [] clog =
     ([(''total_scanned'', JInt 0), (''results'', JResults [])], clog) \<and>
   map_of (fst (analyze_list analyzer [] clog)) ''error'' = None"
  by (simp add: analyze_list_def)

section \<open>The file endpoint\<close>

text \<open>
  C7: for every upload whose bytes are not valid UTF-8, \<^verbatim>\<open>analyze_file\<close> fails as a
  whole: the pipeline is called on no line, and the response is exactly the
  \<^verbatim>\<open>error\<close> entry \<^verbatim>\<open>Invalid file encoding. Use UTF-8.\<close>, with no \<^verbatim>\<open>results\<close> key and
  no \<^verbatim>\<open>meta\<close> key.
\<close>

theorem analyze_file_invalid_encoding:
  assumes "utf8_decode content = None"
  shows "analyze_file analyzer elapsed content clog =
           ([(''error'', JStr (ascii ''Invalid file encoding. Use UTF-8.''))], clog) \<and>
         map_of (fst (analyze_file analyzer elapsed content clog)) ''results'' = None \<and>
         map_of (fst (analyze_file analyzer elapsed content clog)) ''meta'' = None"
  using assms by (simp add: analyze_file_def)

theorem analyze_file_invalid_encoding_witness:
  "utf8_decode [0x68, 0x69, 0xFF] = None \<and>
   analyze_file (const_analyzer (ascii ''POSITIVE'') (9/10)) 0 [0x68, 0x69, 0xFF] [] =
     ([(''error'', JStr (ascii ''Invalid file encoding. Use UTF-8.''))], [])"
proof -
  have h: "utf8_decode [0x68, 0x69, 0xFF] = None" by simp
  show ?thesis
    using h analyze_file_invalid_encoding [OF h, of "const_analyzer (ascii ''POSITIVE'') (9/10)" 0 "[]"]
    by simp
qed

text \<open>
  C4: for every upload that decodes as UTF-8, with \<open>Q\<close> the number of candidates of its
  lines, the analysed texts are exactly the first \<open>min Q 500\<close> candidates in line order,
  \<^verbatim>\<open>total_scanned\<close> is \<open>min Q 500\<close>, and the pipeline is called on those candidates
  only (on the first 500 characters of each).
\<close>

theorem analyze_file_first_candidates:
  assumes "utf8_decode content = Some decoded"
  shows "let cands = spec_candidates (py_splitlines decoded);
             k = min (length cands) 500;
             out = analyze_file analyzer elapsed content clog
         in map_of (fst out) ''total_scanned'' = Some (JInt k) \<and>
            map_of (fst out) ''results'' = Some (JResults (map (analysis_of analyzer) (take k cands))) \<and>
            map text' (results_of (fst out)) = take k cands \<and>
            snd out = clog @ map (take 500) (take k cands)"
proof -
  have t: "take (min (length cs) 500) cs = take 500 cs" for cs :: "pystr list"
    by (simp add: min_def)
  have m: "map (text' \<circ> analysis_of analyzer) cs = cs" for cs
    by (induction cs) (simp_all add: analysis_of_fields)
  show ?thesis
    unfolding Let_def analyze_file_eq [OF assms] t
    by (simp add: MAX_ROWS_def results_of_def m min.commute)
qed

theorem analyze_file_first_candidates_witness:
  "utf8_decode [0x61, 0x2C, 0x62, 0x0A, 0x0A, 0x68, 0x65, 0x6C, 0x6C, 0x6F, 0x20, 0x77, 0x6F,
                0x72, 0x6C, 0x64, 0x2C, 0x78, 0x0A] =
     Some (ascii ''a,b'' @ [10, 10] @ ascii ''hello world,x'' @ [10]) \<and>
   spec_candidates (py_splitlines (ascii ''a,b'' @ [10, 10] @ ascii ''hello world,x'' @ [10])) =
     [ascii ''hello world''] \<and>
   analyze_file (const_analyzer (ascii ''POSITIVE'') (9/10)) 0
     [0x61, 0x2C, 0x62, 0x0A, 0x0A, 0x68, 0x65, 0x6C, 0x6C, 0x6F, 0x20, 0x77, 0x6F,
      0x72, 0x6C, 0x64, 0x2C, 0x78, 0x0A] [] =
     ([(''total_scanned'', JInt 1),
       (''results'', JResults
          [analysis_of (const_analyzer (ascii ''POSITIVE'') (9/10)) (ascii ''hello world'')]),
       (''meta'', JDict [(''processing_time'', JFloat 0), (''warning'', JNone)])],
      [ascii ''hello world''])"
proof -
  define s where "s = ascii ''a,b'' @ [10, 10] @ ascii ''hello world,x'' @ [10]"
  define bytes :: "byte list" where
    "bytes = [0x61, 0x2C, 0x62, 0x0A, 0x0A, 0x68, 0x65, 0x6C, 0x6C, 0x6F, 0x20, 0x77, 0x6F,
              0x72, 0x6C, 0x64, 0x2C, 0x78, 0x0A]"
  have h: "utf8_decode bytes = Some s"
    by (simp add: s_def bytes_def ascii_def)
  have l: "py_splitlines s = [ascii ''a,b'', [], ascii ''hello world,x'']"
    by (simp add: s_def py_splitlines_def ascii_def is_linebreak_def)
  have c: "spec_candidates (py_splitlines s) = [ascii ''hello world'']"
    unfolding l
    by (simp add: spec_candidates_def spec_candidate_def py_strip_def ascii_def is_space_def)
  have len: "length (py_splitlines s) = 3"
    unfolding l by simp
  have t: "take 500 (ascii ''hello world'') = ascii ''hello world''"
    by (simp add: ascii_def)
  note w = analyze_file_first_candidates
    [OF h, of "const_analyzer (ascii ''POSITIVE'') (9/10)" 0 "[]"]
  have r: "analyze_file (const_analyzer (ascii ''POSITIVE'') (9/10)) 0 bytes [] =
     ([(''total_scanned'', JInt 1),
       (''results'', JResults
          [analysis_of (const_analyzer (ascii ''POSITIVE'') (9/10)) (ascii ''hello world'')]),
       (''meta'', JDict [(''processing_time'', JFloat 0), (''warning'', JNone)])],
      [ascii ''hello world''])"
    using w len by (simp add: analyze_file_eq [OF h] c t MAX_ROWS_def)
  from h c r show ?thesis
    unfolding s_def bytes_def by (intro conjI)
qed

text \<open>
  C3 says that the warning is absent exactly when at most 500 lines qualify. The code
  tests the number of decoded lines instead, blank and short lines included
  (\<open>analyze_file_warning_iff\<close>). An upload of 501 empty lines has no qualifying line and
  nothing of it is analysed, yet the response carries the warning that the rows were
  capped.
\<close>

theorem analyze_file_warning_without_cap:
  "utf8_decode (replicate 501 0x0A) = Some (replicate 501 10) \<and>
   py_splitlines (replicate 501 10) = replicate 501 [] \<and>
   length (spec_candidates (py_splitlines (replicate 501 10))) = 0 \<and>
   analyze_file analyzer elapsed (replicate 501 0x0A) clog =
     ([(''total_scanned'', JInt 0),
       (''results'', JResults []),
       (''meta'', JDict
          [(''processing_time'', JFloat elapsed),
           (''warning'', JStr (ascii ''Capped at 500 rows to prevent timeout.''))])],
      clog)"
proof -
  have l: "py_splitlines (replicate 501 10) = replicate 501 []"
    by (simp only: py_splitlines_def split_lines_newlines)
  have r: "analyze_file analyzer elapsed (replicate 501 0x0A) clog =
     ([(''total_scanned'', JInt 0),
       (''results'', JResults []),
       (''meta'', JDict
          [(''processing_time'', JFloat elapsed),
           (''warning'', JStr (ascii ''Capped at 500 rows to prevent timeout.''))])],
      clog)"
    unfolding analyze_file_eq [OF utf8_decode_newlines] l spec_candidates_blank
    by (simp add: MAX_ROWS_def)
  show ?thesis
    using r by (simp only: utf8_decode_newlines l spec_candidates_blank list.size simp_thms)
qed

section \<open>The scrape endpoint\<close>

text \<open>
  C8: for every fetched page, \<^verbatim>\<open>scrape_url\<close> analyses exactly the paragraph texts whose
  trimmed length exceeds 20, trimmed, cut to the first 50 of them in document order; a
  page with 80 such paragraphs gives \<^verbatim>\<open>total_scanned\<close> 50.
\<close>

theorem scrape_url_paragraph_cap:
  "snd (scrape_url analyzer (Page ptexts) clog) =
     clog @ map (take 500) (take 50 (spec_paragraphs ptexts)) \<and>
   (spec_paragraphs ptexts \<noteq> [] \<longrightarrow>
      fst (scrape_url analyzer (Page ptexts) clog) =
        [(''total_scanned'', JInt (min (length (spec_paragraphs ptexts)) 50)),
         (''results'', JResults
            (map (analysis_of analyzer) (take 50 (spec_paragraphs ptexts))))]) \<and>
   (length (spec_paragraphs ptexts) = 80 \<longrightarrow>
      map_of (fst (scrape_url analyzer (Page ptexts) clog)) ''total_scanned'' = Some (JInt 50))"
proof (cases "spec_paragraphs ptexts = []")
  case True
  then show ?thesis by (simp add: scrape_url_empty)
next
  case False
  then show ?thesis by (auto simp: scrape_url_eq min.commute)
qed

theorem scrape_url_paragraph_cap_witness:
  "length (spec_paragraphs (replicate 80 (ascii ''  A paragraph of some length.  ''))) = 80 \<and>
   scrape_url (const_analyzer (ascii ''NEGATIVE'') (3/4))
     (Page (replicate 80 (ascii ''  A paragraph of some length.  ''))) [] =
     ([(''total_scanned'', JInt 50),
       (''results'', JResults
          (replicate 50 (analysis_of (const_analyzer (ascii ''NEGATIVE'') (3/4))
             (ascii ''A paragraph of some length.''))))],
      replicate 50 (ascii ''A paragraph of some length.''))"
proof -
  define p where "p = ascii ''  A paragraph of some length.  ''"
  define q where "q = ascii ''A paragraph of some length.''"
  have s: "py_strip p = q"
    by (simp add: p_def q_def py_strip_def ascii_def is_space_def)
  have n: "length q = 27"
    by (simp add: q_def ascii_def)
  have sp: "spec_paragraphs (replicate 80 p) = replicate 80 q"
    by (simp add: spec_paragraphs_def s n)
  have t: "take 500 q = q"
    by (simp add: n)
  note w = scrape_url_paragraph_cap
    [of "const_analyzer (ascii ''NEGATIVE'') (3/4)" "replicate 80 p" "[]"]
  have r: "scrape_url (const_analyzer (ascii ''NEGATIVE'') (3/4)) (Page (replicate 80 p)) [] =
     ([(''total_scanned'', JInt 50),
       (''results'', JResults
          (replicate 50 (analysis_of (const_analyzer (ascii ''NEGATIVE'') (3/4)) q)))],
      replicate 50 q)"
    using w by (simp add: sp t prod_eq_iff)
  have l: "length (spec_paragraphs (replicate 80 p)) = 80"
    by (simp add: sp)
  from l r show ?thesis
    unfolding p_def q_def by (intro conjI)
qed

text \<open>
  C9: for every fetched page with no paragraph of trimmed length above 20,
  \<^verbatim>\<open>scrape_url\<close> returns exactly the \<^verbatim>\<open>error\<close> entry
  \<^verbatim>\<open>No readable paragraph text found on this URL.\<close> with an empty \<^verbatim>\<open>results\<close> list, and
  calls the pipeline on nothing.
\<close>

theorem scrape_url_no_readable_text:
  assumes "filter (\<lambda>p. 20 < length (py_strip p)) ptexts = []"
  shows "scrape_url analyzer (Page ptexts) clog =
           ([(''error'', JStr (ascii ''No readable paragraph text found on this URL.'')),
             (''results'', JResults [])], clog)"
  using assms by (simp add: scrape_url_def)

theorem scrape_url_no_readable_text_witness:
  "filter (\<lambda>p. 20 < length (py_strip p)) [ascii ''  Menu  '', ascii ''Home''] = [] \<and>
   scrape_url (const_analyzer (ascii ''POSITIVE'') (9/10)) (Page [ascii ''  Menu  '', ascii ''Home'']) [] =
     ([(''error'', JStr (ascii ''No readable paragraph text found on this URL.'')),
       (''results'', JResults [])], [])"
proof -
  have h: "filter (\<lambda>p. 20 < length (py_strip p)) [ascii ''  Menu  '', ascii ''Home''] = []"
    by (simp add: py_strip_def ascii_def is_space_def)
  show ?thesis
    using h scrape_url_no_readable_text [OF h, of "const_analyzer (ascii ''POSITIVE'') (9/10)" "[]"]
    by simp
qed

end
